theory Spec2Isabelle
  imports Complex_Main "HOL-Library.AList"
begin

section \<open>Data model (transaction.py, block.py, utxo.py)\<close>

text \<open>
  Exceptions of the Python code that the model keeps as values. Every function that can
  raise returns \<open>error + 'a\<close>, with \<open>Inl\<close> for the exception.
\<close>

datatype error = IndexError | ValueError

text \<open>
  \<^verbatim>\<open>TransactionInput\<close>, \<^verbatim>\<open>TransactionOutput\<close> and \<^verbatim>\<open>Transaction\<close> of transaction.py.
  Field names that occur in several classes carry a prefix. The transaction id is
  computed once by the constructor and then only read, so it is a stored field.
\<close>

record TransactionInput =
  in_txid :: string
  output_index :: int
  signature :: string

record TransactionOutput =
  out_value :: int
  recipient :: string

record Transaction =
  inputs :: "TransactionInput list"
  outputs :: "TransactionOutput list"
  tx_timestamp :: real
  txid :: string

definition is_coinbase :: "Transaction \<Rightarrow> bool" where
  "is_coinbase tx = (inputs tx = [])"

definition calculate_fee :: "Transaction \<Rightarrow> int list \<Rightarrow> int" where
  "calculate_fee tx input_values =
     sum_list input_values - sum_list (map out_value (outputs tx))"

subsection \<open>The UTXO set\<close>

text \<open>
  \<^verbatim>\<open>UTXOSet.utxos\<close> is a dict from \<open>(txid, output_index)\<close> to the output. It is kept as
  an association list in insertion order: assigning to a present key replaces the value
  in place and a new key goes to the end, as in a Python dict.
\<close>

type_synonym UTXOSet = "((string \<times> int) \<times> TransactionOutput) list"

definition add_utxo :: "UTXOSet \<Rightarrow> string \<Rightarrow> int \<Rightarrow> TransactionOutput \<Rightarrow> UTXOSet" where
  "add_utxo u t i out = AList.update (t, i) out u"

definition remove_utxo :: "UTXOSet \<Rightarrow> string \<Rightarrow> int \<Rightarrow> UTXOSet" where
  "remove_utxo u t i = AList.delete (t, i) u"

definition get_utxo :: "UTXOSet \<Rightarrow> string \<Rightarrow> int \<Rightarrow> TransactionOutput option" where
  "get_utxo u t i = map_of u (t, i)"

definition get_balance :: "UTXOSet \<Rightarrow> string \<Rightarrow> int" where
  "get_balance u address =
     sum_list (map out_value (filter (\<lambda>out. recipient out = address) (map snd u)))"

text \<open>
  The loop of \<^verbatim>\<open>validate_transaction\<close> over the inputs. \<open>None\<close> is the early
  \<^verbatim>\<open>return False, 0\<close>; otherwise the accumulated \<^verbatim>\<open>total_input\<close> is returned.
\<close>

fun validate_inputs ::
  "UTXOSet \<Rightarrow> TransactionInput list \<Rightarrow> (string \<times> int) set \<Rightarrow> int \<Rightarrow> int option" where
  "validate_inputs u [] seen_inputs total_input = Some total_input"
| "validate_inputs u (tx_input # rest) seen_inputs total_input =
     (let input_key = (in_txid tx_input, output_index tx_input) in
      if input_key \<in> seen_inputs then None
      else (case get_utxo u (in_txid tx_input) (output_index tx_input) of
              None \<Rightarrow> None
            | Some utxo \<Rightarrow>
                validate_inputs u rest (insert input_key seen_inputs)
                  (total_input + out_value utxo)))"

definition validate_transaction :: "UTXOSet \<Rightarrow> Transaction \<Rightarrow> bool \<times> int" where
  "validate_transaction u tx =
     (if is_coinbase tx then (True, 0)
      else (case validate_inputs u (inputs tx) {} 0 of
              None \<Rightarrow> (False, 0)
            | Some total_input \<Rightarrow>
                (let total_output = sum_list (map out_value (outputs tx)) in
                 if total_input < total_output then (False, 0)
                 else (True, total_input))))"

text \<open>\<^verbatim>\<open>for i, output in enumerate(tx.outputs): self.add_utxo(tx.txid, i, output)\<close>\<close>

fun add_outputs :: "UTXOSet \<Rightarrow> string \<Rightarrow> int \<Rightarrow> TransactionOutput list \<Rightarrow> UTXOSet" where
  "add_outputs u t i [] = u"
| "add_outputs u t i (out # rest) = add_outputs (add_utxo u t i out) t (i + 1) rest"

definition apply_transaction :: "UTXOSet \<Rightarrow> Transaction \<Rightarrow> UTXOSet" where
  "apply_transaction u tx =
     add_outputs
       (fold (\<lambda>tx_input acc. remove_utxo acc (in_txid tx_input) (output_index tx_input))
          (inputs tx) u)
       (txid tx) 0 (outputs tx)"

subsection \<open>Blocks and the Merkle root\<close>

text \<open>
  \<^verbatim>\<open>BlockHeader\<close> and \<^verbatim>\<open>Block\<close> of block.py. The difficulty is a count of leading
  hexadecimal zeros and is kept as a natural number. SHA-256 is a library function: every
  definition that hashes takes \<open>H\<close>, the map from a string to the hexadecimal digest of
  its encoding, as its first argument, and the theorems hold for every \<open>H\<close>.
\<close>

record BlockHeader =
  h_previous_hash :: string
  h_merkle_root :: string
  h_difficulty :: nat
  h_version :: int
  h_timestamp :: real
  h_nonce :: int

record Block =
  index :: int
  transactions :: "Transaction list"
  previous_hash :: string
  difficulty :: nat
  timestamp :: real
  merkle_root :: string
  nonce :: int
  header :: BlockHeader
  hash :: string

text \<open>
  One pass of the inner \<^verbatim>\<open>for i in range(0, len(hashes), 2)\<close> loop. Reading
  \<^verbatim>\<open>hashes[i+1]\<close> past the end of a list of odd length raises.
\<close>

fun pair_hashes :: "(string \<Rightarrow> string) \<Rightarrow> string list \<Rightarrow> error + string list" where
  "pair_hashes H [] = Inr []"
| "pair_hashes H [a] = Inl IndexError"
| "pair_hashes H (a # b # rest) =
     (case pair_hashes H rest of
        Inl e \<Rightarrow> Inl e
      | Inr new_hashes \<Rightarrow> Inr (H (a @ b) # new_hashes))"

lemma pair_hashes_length:
  "pair_hashes H hs = Inr r \<Longrightarrow> length hs = 2 * length r"
  by (induction H hs arbitrary: r rule: pair_hashes.induct) (auto split: sum.splits)

text \<open>The \<^verbatim>\<open>while len(hashes) > 1\<close> loop.\<close>

function merkle_loop :: "(string \<Rightarrow> string) \<Rightarrow> string list \<Rightarrow> error + string list" where
  "merkle_loop H hashes =
     (if length hashes > 1 then
        (case pair_hashes H hashes of
           Inl e \<Rightarrow> Inl e
         | Inr new_hashes \<Rightarrow>
             merkle_loop H
               (if length new_hashes > 1 \<and> length new_hashes mod 2 \<noteq> 0
                then new_hashes @ [last new_hashes] else new_hashes))
      else Inr hashes)"
  by pat_completeness auto
termination
  by (relation "measure (\<lambda>(H, hashes). length hashes)")
     (auto dest!: pair_hashes_length)

declare merkle_loop.simps [simp del]

definition calculate_merkle_root ::
  "(string \<Rightarrow> string) \<Rightarrow> Transaction list \<Rightarrow> error + string" where
  "calculate_merkle_root H txs =
     (if txs = [] then Inr (H [])
      else
        (let hashes = map txid txs;
             hashes = (if length hashes mod 2 \<noteq> 0 then hashes @ [last hashes] else hashes)
         in case merkle_loop H hashes of
              Inl e \<Rightarrow> Inl e
            | Inr hs \<Rightarrow> Inr (if hs \<noteq> [] then hd hs else [])))"

text \<open>\<^verbatim>\<open>Block.validate\<close>: previous hash, proof of work on the stored hash, Merkle root.\<close>

definition validate :: "(string \<Rightarrow> string) \<Rightarrow> Block \<Rightarrow> string \<Rightarrow> error + bool" where
  "validate H b prev =
     (if previous_hash b \<noteq> prev then Inr False
      else if take (difficulty b) (hash b) \<noteq> replicate (difficulty b) (CHR ''0'') then Inr False
      else (case calculate_merkle_root H (transactions b) of
              Inl e \<Rightarrow> Inl e
            | Inr computed \<Rightarrow> Inr (computed = merkle_root b)))"

section \<open>Chain manager (blockchain.py of the package)\<close>

record Blockchain =
  bc_difficulty :: nat
  chain :: "Block list"
  pending_transactions :: "Transaction list"
  utxo :: UTXOSet
  forks :: "Block list list"

definition apply_block :: "UTXOSet \<Rightarrow> Block \<Rightarrow> UTXOSet" where
  "apply_block u b = fold (\<lambda>tx acc. apply_transaction acc tx) (transactions b) u"

text \<open>\<^verbatim>\<open>self.chain[-1]\<close> raises on an empty chain.\<close>

definition last_block :: "Blockchain \<Rightarrow> error + Block" where
  "last_block s = (if chain s = [] then Inl IndexError else Inr (last (chain s)))"

definition add_transaction :: "Blockchain \<Rightarrow> Transaction \<Rightarrow> bool \<times> Blockchain" where
  "add_transaction s tx =
     (let (is_valid, _) = validate_transaction (utxo s) tx in
      if is_valid
      then (True, s\<lparr>pending_transactions := pending_transactions s @ [tx]\<rparr>)
      else (False, s))"

text \<open>
  The transaction loop of \<^verbatim>\<open>is_valid_block\<close>, run on \<^verbatim>\<open>temp_utxo\<close>, the deep copy
  of the live set. \<open>None\<close> is an early \<^verbatim>\<open>return False\<close>; otherwise the loop ends with
  the temporary set and the accumulated fees.
\<close>

fun check_transactions ::
  "UTXOSet \<Rightarrow> Transaction list \<Rightarrow> string set \<Rightarrow> int \<Rightarrow> (UTXOSet \<times> int) option" where
  "check_transactions temp_utxo [] seen_txids total_fees = Some (temp_utxo, total_fees)"
| "check_transactions temp_utxo (tx # rest) seen_txids total_fees =
     (if txid tx \<in> seen_txids then None
      else if is_coinbase tx
        then check_transactions temp_utxo rest (insert (txid tx) seen_txids) total_fees
      else
        (let (is_valid, input_value) = validate_transaction temp_utxo tx in
         if \<not> is_valid then None
         else
           (let output_value = sum_list (map out_value (outputs tx)) in
            check_transactions (apply_transaction temp_utxo tx) rest
              (insert (txid tx) seen_txids)
              (total_fees + (input_value - output_value)))))"

text \<open>
  \<^verbatim>\<open>is_valid_block\<close>. It only reads the state: the transactions are checked on the
  copy. The last test, \<^verbatim>\<open>len(coinbase.outputs) != 1 or coinbase.outputs[0].value != 50\<close>,
  is written as the two tests that \<^verbatim>\<open>or\<close> evaluates in turn, so that the first output
  is read only when there is exactly one.
\<close>

definition is_valid_block :: "(string \<Rightarrow> string) \<Rightarrow> Blockchain \<Rightarrow> Block \<Rightarrow> error + bool" where
  "is_valid_block H s b =
     (case last_block s of
        Inl e \<Rightarrow> Inl e
      | Inr tip \<Rightarrow>
          (case validate H b (hash tip) of
             Inl e \<Rightarrow> Inl e
           | Inr ok \<Rightarrow>
               if \<not> ok then Inr False
               else
                 (case check_transactions (utxo s) (transactions b) {} 0 of
                    None \<Rightarrow> Inr False
                  | Some (temp_utxo, total_fees) \<Rightarrow>
                      (case transactions b of
                         [] \<Rightarrow> Inr True
                       | coinbase # _ \<Rightarrow>
                           if is_coinbase coinbase then
                             (if length (outputs coinbase) \<noteq> 1 then Inr False
                              else if out_value (outputs coinbase ! 0) \<noteq> 50 then Inr False
                              else Inr True)
                           else Inr True))))"

text \<open>Python slices \<^verbatim>\<open>xs[:n]\<close> and \<^verbatim>\<open>xs[n:]\<close>; a negative bound counts from the end.\<close>

definition slice_to :: "'a list \<Rightarrow> int \<Rightarrow> 'a list" where
  "slice_to xs n = (if 0 \<le> n then take (nat n) xs else take (length xs - nat (- n)) xs)"

definition slice_from :: "'a list \<Rightarrow> int \<Rightarrow> 'a list" where
  "slice_from xs n = (if 0 \<le> n then drop (nat n) xs else drop (length xs - nat (- n)) xs)"

text \<open>\<^verbatim>\<open>list.index\<close>: the first position holding the element, \<^verbatim>\<open>ValueError\<close> if none.\<close>

fun list_index :: "'a list \<Rightarrow> 'a \<Rightarrow> error + nat" where
  "list_index [] x = Inl ValueError"
| "list_index (y # ys) x =
     (if y = x then Inr 0
      else (case list_index ys x of Inl e \<Rightarrow> Inl e | Inr n \<Rightarrow> Inr (Suc n)))"

text \<open>
  \<^verbatim>\<open>_switch_to_fork\<close>. It is called with the fork already extended in place, so
  \<open>fork_chain\<close> is entry \<open>fork_index\<close> of \<open>forks s\<close>. \<^verbatim>\<open>old_chain\<close> is computed
  and never read. \<^verbatim>\<open>self.forks.pop\<close> raises on an index out of range.
\<close>

definition switch_to_fork :: "Blockchain \<Rightarrow> Block list \<Rightarrow> nat \<Rightarrow> error + Blockchain" where
  "switch_to_fork s fork_chain fork_index =
     (let u0 = [];
          u1 = fold (\<lambda>block acc. apply_block acc block)
                 (slice_to (chain s) (int (length fork_chain) - 1)) u0;
          u2 = fold (\<lambda>block acc. apply_block acc block)
                 (slice_from fork_chain (int (length (chain s)))) u1
      in if fork_index < length (forks s)
         then Inr (s\<lparr>utxo := u2, chain := fork_chain,
                     forks := take fork_index (forks s) @ drop (Suc fork_index) (forks s)\<rparr>)
         else Inl IndexError)"

text \<open>
  The first loop of \<^verbatim>\<open>_handle_fork\<close>: the first tracked fork whose last block has the
  hash the new block names, with its position. \<^verbatim>\<open>fork_chain[-1]\<close> raises on an empty
  fork.
\<close>

fun find_fork :: "Block \<Rightarrow> Block list list \<Rightarrow> nat \<Rightarrow> error + (nat \<times> Block list) option" where
  "find_fork b [] i = Inr None"
| "find_fork b (fork_chain # rest) i =
     (if fork_chain = [] then Inl IndexError
      else if previous_hash b = hash (last fork_chain) then Inr (Some (i, fork_chain))
      else find_fork b rest (Suc i))"

text \<open>
  \<^verbatim>\<open>_handle_fork\<close>. Blocks have no \<^verbatim>\<open>__eq__\<close>, so \<^verbatim>\<open>self.chain.index\<close> compares by
  identity; the block it looks for is the first one of the chain with the wanted hash,
  and the first position holding an equal value is that same position.
\<close>

definition handle_fork :: "Blockchain \<Rightarrow> Block \<Rightarrow> error + (bool \<times> Blockchain)" where
  "handle_fork s b =
     (case find_fork b (forks s) 0 of
        Inl e \<Rightarrow> Inl e
      | Inr (Some (i, old_fork)) \<Rightarrow>
          (let fork_chain = old_fork @ [b];
               s1 = s\<lparr>forks := (forks s)[i := fork_chain]\<rparr>
           in if length fork_chain > length (chain s)
              then (case switch_to_fork s1 fork_chain i of
                      Inl e \<Rightarrow> Inl e
                    | Inr s2 \<Rightarrow> Inr (True, s2))
              else Inr (True, s1))
      | Inr None \<Rightarrow>
          (let matching_blocks = filter (\<lambda>x. hash x = previous_hash b) (chain s) in
           if matching_blocks \<noteq> []
           then (case list_index (chain s) (hd matching_blocks) of
                   Inl e \<Rightarrow> Inl e
                 | Inr fork_index \<Rightarrow>
                     (let fork_chain = take (fork_index + 1) (chain s) @ [b] in
                      Inr (True, s\<lparr>forks := forks s @ [fork_chain]\<rparr>)))
           else Inr (False, s)))"

definition add_block ::
  "(string \<Rightarrow> string) \<Rightarrow> Blockchain \<Rightarrow> Block \<Rightarrow> error + (bool \<times> Blockchain)" where
  "add_block H s b =
     (case is_valid_block H s b of
        Inl e \<Rightarrow> Inl e
      | Inr ok \<Rightarrow>
          if \<not> ok then Inr (False, s)
          else
            (case last_block s of
               Inl e \<Rightarrow> Inl e
             | Inr tip \<Rightarrow>
                 if previous_hash b \<noteq> hash tip then handle_fork s b
                 else Inr (True, s\<lparr>chain := chain s @ [b],
                                   utxo := apply_block (utxo s) b\<rparr>)))"

text \<open>\<^verbatim>\<open>get_chain_difficulty\<close>; \<open>None\<close> stands for the default argument.\<close>

definition get_chain_difficulty :: "Blockchain \<Rightarrow> Block list option \<Rightarrow> int" where
  "get_chain_difficulty s chain_arg =
     (let c = (case chain_arg of None \<Rightarrow> chain s | Some c \<Rightarrow> c)
      in sum_list (map (\<lambda>block. 2 ^ difficulty block) c))"

text \<open>
  The invariant that fork handling maintains, stated on lengths because lengths are what
  \<^verbatim>\<open>_handle_fork\<close> compares: no tracked fork has more blocks than the canonical chain.
\<close>

definition forks_not_longer :: "Blockchain \<Rightarrow> bool" where
  "forks_not_longer s = (\<forall>f \<in> set (forks s). length f \<le> length (chain s))"

section \<open>The standalone module (blockchain.py at the top level)\<close>

text \<open>
  \<^verbatim>\<open>Block\<close> of the standalone module. Its \<^verbatim>\<open>Transaction\<close> dataclass has the four
  fields of the package's class, so the record \<open>Transaction\<close> serves for both.
\<close>

record Block_sf =
  index_sf :: int
  transactions_sf :: "Transaction list"
  previous_hash_sf :: string
  timestamp_sf :: real
  nonce_sf :: int
  hash_sf :: string

text \<open>
  \<^verbatim>\<open>calculate_hash\<close> hashes the JSON text of a dict with the block's index, the ids of
  its transactions, its previous hash, its timestamp and its nonce. The parameter \<open>dg\<close>
  stands for the library part,
  \<^verbatim>\<open>sha256(json.dumps(block_data, sort_keys=True).encode()).hexdigest()\<close>, as a function of
  the five entries.
\<close>

type_synonym block_data = "int \<times> string list \<times> string \<times> real \<times> int"

definition calculate_hash_sf :: "(block_data \<Rightarrow> string) \<Rightarrow> Block_sf \<Rightarrow> string" where
  "calculate_hash_sf dg b =
     dg (index_sf b, map txid (transactions_sf b), previous_hash_sf b, timestamp_sf b,
         nonce_sf b)"

text \<open>The constructor with \<^verbatim>\<open>__post_init__\<close>: the nonce starts at 0, the hash is computed.\<close>

definition Block_init_sf ::
  "(block_data \<Rightarrow> string) \<Rightarrow> int \<Rightarrow> Transaction list \<Rightarrow> string \<Rightarrow> real \<Rightarrow> Block_sf" where
  "Block_init_sf dg i txs prev ts =
     (let b = \<lparr>index_sf = i, transactions_sf = txs, previous_hash_sf = prev,
               timestamp_sf = ts, nonce_sf = 0, hash_sf = []\<rparr>
      in b\<lparr>hash_sf := calculate_hash_sf dg b\<rparr>)"

text \<open>
  \<^verbatim>\<open>mine\<close> is an unbounded loop; \<open>None\<close> is the run that finds no nonce and never
  returns.
\<close>

partial_function (option) mine_sf ::
  "(block_data \<Rightarrow> string) \<Rightarrow> nat \<Rightarrow> Block_sf \<Rightarrow> Block_sf option" where
  "mine_sf dg d b =
     (if take d (hash_sf b) \<noteq> replicate d (CHR ''0'')
      then (let b1 = b\<lparr>nonce_sf := nonce_sf b + 1\<rparr>
            in mine_sf dg d (b1\<lparr>hash_sf := calculate_hash_sf dg b1\<rparr>))
      else Some b)"

record Blockchain_sf =
  chain_sf :: "Block_sf list"
  pending_transactions_sf :: "Transaction list"
  utxos_sf :: "(string \<times> TransactionOutput) list"
  difficulty_sf :: nat

text \<open>The timestamp of the genesis block is \<^verbatim>\<open>datetime(2024, 1, 1).timestamp()\<close>, a parameter here.\<close>

definition create_genesis_block :: "(block_data \<Rightarrow> string) \<Rightarrow> real \<Rightarrow> Block_sf" where
  "create_genesis_block dg ts =
     (let genesis_block = Block_init_sf dg 0 [] (replicate 64 (CHR ''0'')) ts
      in genesis_block\<lparr>hash_sf := calculate_hash_sf dg genesis_block\<rparr>)"

text \<open>
  \<^verbatim>\<open>is_chain_valid\<close>: the loop \<^verbatim>\<open>for i in range(1, len(self.chain))\<close>, as a recursion that
  carries the previous block.
\<close>

fun chain_valid_from :: "(block_data \<Rightarrow> string) \<Rightarrow> nat \<Rightarrow> Block_sf \<Rightarrow> Block_sf list \<Rightarrow> bool" where
  "chain_valid_from dg d previous_block [] = True"
| "chain_valid_from dg d previous_block (current_block # rest) =
     (if hash_sf current_block \<noteq> calculate_hash_sf dg current_block then False
      else if previous_hash_sf current_block \<noteq> hash_sf previous_block then False
      else if take d (hash_sf current_block) \<noteq> replicate d (CHR ''0'') then False
      else chain_valid_from dg d current_block rest)"

definition is_chain_valid :: "(block_data \<Rightarrow> string) \<Rightarrow> Blockchain_sf \<Rightarrow> bool" where
  "is_chain_valid dg s =
     (case chain_sf s of
        [] \<Rightarrow> True
      | genesis # rest \<Rightarrow> chain_valid_from dg (difficulty_sf s) genesis rest)"

text \<open>
  The chains the standalone module produces: the constructor puts the genesis block, and
  \<^verbatim>\<open>mine_pending_transactions\<close> appends a block built on the last one (index the length
  of the chain, the coinbase and the pending transactions, the last block's hash as
  previous hash) once \<^verbatim>\<open>mine\<close> has returned it.
\<close>

inductive mined_chain :: "(block_data \<Rightarrow> string) \<Rightarrow> nat \<Rightarrow> Block_sf list \<Rightarrow> bool"
  for dg :: "block_data \<Rightarrow> string" and d :: nat where
  genesis: "mined_chain dg d [create_genesis_block dg ts]"
| mined: "mined_chain dg d c \<Longrightarrow> c \<noteq> [] \<Longrightarrow>
     mine_sf dg d (Block_init_sf dg (int (length c)) txs (hash_sf (last c)) ts) = Some new_block \<Longrightarrow>
     mined_chain dg d (c @ [new_block])"

section \<open>Concrete data for the examples\<close>

text \<open>
  The closed examples below need a concrete digest function. \<open>sha256_hexdigest\<close> gives
  the SHA-256 hexadecimal digests of the strings the examples hash (the empty string and
  concatenated pairs of transaction ids); no example hashes any other string.
\<close>

definition sha256_hexdigest :: "string \<Rightarrow> string" where
  "sha256_hexdigest m =
     (if m = [] then ''e3b0c44298fc1c149afbf4c8996fb92427ae41e4649b934ca495991b7852b855''
      else if m = ''c1c2''
        then ''70446a97d576f24f0b082c5ee4339093a80b04fc0c9581b7d1334ac02c7994c1''
      else if m = ''c1t1''
        then ''976afbed090af8ff2d48d1601db67fcfa8d259ec09df9a12ffdb6790e621a2e9''
      else if m = ''c1c1''
        then ''38fec83883fb91f9e485bb3f2707393cd23cc4c75418ffc797ead75804172bc5''
      else if m = ''c0c0''
        then ''d59a0247c7216f807c5a7058ef2af0ff62c74fe3ab22ba02c909ff9406e61278''
      else if m = ''caca''
        then ''26429a356b1d25b7d57c0f9a6d5fed8a290cb42374185887dcd2874548df0779''
      else if m = ''cbcb''
        then ''82bdf57db775b012e389fc17a612fe24d28e67c3bb5198e23ab3efe7a1cedc6c''
      else if m = ''cccc''
        then ''b6fbd675f98e2abd22d4ed29fdc83150fedc48597e92dd1a7a24381d44a27451''
      else [])"

definition mk_in :: "string \<Rightarrow> int \<Rightarrow> TransactionInput" where
  "mk_in t i = \<lparr>in_txid = t, output_index = i, signature = ''mock_signature''\<rparr>"

definition mk_out :: "int \<Rightarrow> string \<Rightarrow> TransactionOutput" where
  "mk_out v r = \<lparr>out_value = v, recipient = r\<rparr>"

definition mk_tx :: "string \<Rightarrow> TransactionInput list \<Rightarrow> TransactionOutput list \<Rightarrow> Transaction" where
  "mk_tx t ins outs = \<lparr>inputs = ins, outputs = outs, tx_timestamp = 0, txid = t\<rparr>"

definition mk_block ::
  "int \<Rightarrow> Transaction list \<Rightarrow> string \<Rightarrow> nat \<Rightarrow> string \<Rightarrow> string \<Rightarrow> Block" where
  "mk_block i txs prev d mroot h =
     \<lparr>index = i, transactions = txs, previous_hash = prev, difficulty = d, timestamp = 0,
      merkle_root = mroot, nonce = 0,
      header = \<lparr>h_previous_hash = prev, h_merkle_root = mroot, h_difficulty = d,
                 h_version = 1, h_timestamp = 0, h_nonce = 0\<rparr>,
      hash = h\<rparr>"

text \<open>
  A chain of two blocks at difficulty 2: the genesis block, and a block whose coinbase
  \<open>c0\<close> pays 50 to alice. The live set then holds that one output.
\<close>

definition ex_c0 :: Transaction where
  "ex_c0 = mk_tx ''c0'' [] [mk_out 50 ''alice'']"

definition ex_genesis :: Block where
  "ex_genesis = mk_block 0 [] (replicate 64 (CHR ''0'')) 2 (sha256_hexdigest []) ''00a0''"

definition ex_a1 :: Block where
  "ex_a1 = mk_block 1 [ex_c0] ''00a0'' 2 (sha256_hexdigest ''c0c0'') ''00a1''"

definition ex_utxo :: UTXOSet where
  "ex_utxo = [((''c0'', 0), mk_out 50 ''alice'')]"

definition ex_init :: Blockchain where
  "ex_init = \<lparr>bc_difficulty = 2, chain = [ex_genesis], pending_transactions = [],
              utxo = [], forks = []\<rparr>"

definition ex_state :: Blockchain where
  "ex_state = \<lparr>bc_difficulty = 2, chain = [ex_genesis, ex_a1], pending_transactions = [],
               utxo = ex_utxo, forks = []\<rparr>"

text \<open>Two transactions that spend alice's output.\<close>

definition ex_t1 :: Transaction where
  "ex_t1 = mk_tx ''t1'' [mk_in ''c0'' 0] [mk_out 50 ''bob'']"

definition ex_t2 :: Transaction where
  "ex_t2 = mk_tx ''t2'' [mk_in ''c0'' 0] [mk_out 40 ''carol'']"

text \<open>A well-formed coinbase and one with two outputs of 1000.\<close>

definition ex_c1 :: Transaction where
  "ex_c1 = mk_tx ''c1'' [] [mk_out 50 ''miner'']"

definition ex_c2 :: Transaction where
  "ex_c2 = mk_tx ''c2'' [] [mk_out 1000 ''mallory'', mk_out 1000 ''mallory'']"

text \<open>
  Candidate blocks on top of \<open>ex_state\<close>: \<open>ex_b_side\<close> names the genesis block as its
  parent; \<open>ex_b_two_coinbases\<close> and \<open>ex_b_spend\<close> name the tip.
\<close>

definition ex_b_side :: Block where
  "ex_b_side = mk_block 1 [ex_c1] ''00a0'' 2 (sha256_hexdigest ''c1c1'') ''00f1''"

definition ex_b_two_coinbases :: Block where
  "ex_b_two_coinbases =
     mk_block 2 [ex_c1, ex_c2] ''00a1'' 2 (sha256_hexdigest ''c1c2'') ''00b4''"

definition ex_b_spend :: Block where
  "ex_b_spend = mk_block 2 [ex_c1, ex_t1] ''00a1'' 2 (sha256_hexdigest ''c1t1'') ''00b7''"

text \<open>
  A block whose parent is unknown, a transaction that spends an output the live set does
  not hold, and \<open>ex_state\<close> after \<open>ex_t1\<close> has been submitted.
\<close>

definition ex_b_orphan :: Block where
  "ex_b_orphan = mk_block 2 [ex_c1] ''00ee'' 2 (sha256_hexdigest ''c1c1'') ''00f2''"

definition ex_t_missing :: Transaction where
  "ex_t_missing = mk_tx ''t4'' [mk_in ''c0'' 1] []"

definition ex_state_pending :: Blockchain where
  "ex_state_pending = ex_state\<lparr>pending_transactions := [ex_t1]\<rparr>"

text \<open>
  Fork scenarios. The canonical chain has the three blocks \<open>ex_genesis\<close>, \<open>ex_a1\<close>,
  \<open>ex_a2\<close>; the coinbase of \<open>ex_a2\<close> pays dave, who is paid nowhere else.
  In \<open>ex_fork_state\<close> a fork shares the first two blocks and continues with \<open>ex_f2\<close>,
  whose coinbase pays erin; \<open>ex_f3\<close>, paying frank, extends it to four blocks.
  In \<open>ex_work_state\<close> the fork \<open>[ex_genesis, ex_f1]\<close> is extended by \<open>ex_f1x\<close>, a block
  of difficulty 3 where every other block has difficulty 2.
\<close>

definition ex_a2 :: Block where
  "ex_a2 = mk_block 2 [mk_tx ''ca'' [] [mk_out 50 ''dave'']] ''00a1'' 2
             (sha256_hexdigest ''caca'') ''00a2''"

definition ex_f2 :: Block where
  "ex_f2 = mk_block 2 [mk_tx ''cb'' [] [mk_out 50 ''erin'']] ''00a1'' 2
             (sha256_hexdigest ''cbcb'') ''00e2''"

definition ex_f3 :: Block where
  "ex_f3 = mk_block 3 [mk_tx ''cc'' [] [mk_out 50 ''frank'']] ''00e2'' 2
             (sha256_hexdigest ''cccc'') ''00e3''"

definition ex_fork_state :: Blockchain where
  "ex_fork_state =
     \<lparr>bc_difficulty = 2, chain = [ex_genesis, ex_a1, ex_a2], pending_transactions = [],
      utxo = [((''c0'', 0), mk_out 50 ''alice''), ((''ca'', 0), mk_out 50 ''dave'')],
      forks = [[ex_genesis, ex_a1, ex_f2]]\<rparr>"

definition ex_f1 :: Block where
  "ex_f1 = mk_block 1 [mk_tx ''cb'' [] [mk_out 50 ''erin'']] ''00a0'' 2
             (sha256_hexdigest ''cbcb'') ''00d1''"

definition ex_f1x :: Block where
  "ex_f1x = mk_block 2 [mk_tx ''cc'' [] [mk_out 50 ''frank'']] ''00d1'' 3
              (sha256_hexdigest ''cccc'') ''000d2''"

definition ex_work_state :: Blockchain where
  "ex_work_state =
     \<lparr>bc_difficulty = 2, chain = [ex_genesis, ex_a1, ex_a2], pending_transactions = [],
      utxo = [((''c0'', 0), mk_out 50 ''alice''), ((''ca'', 0), mk_out 50 ''dave'')],
      forks = [[ex_genesis, ex_f1]]\<rparr>"

text \<open>The state that \<^verbatim>\<open>_handle_fork\<close> returns for \<open>ex_f3\<close> in \<open>ex_fork_state\<close>.\<close>

definition ex_after_reorg :: Blockchain where
  "ex_after_reorg =
     \<lparr>bc_difficulty = 2, chain = [ex_genesis, ex_a1, ex_f2, ex_f3],
      pending_transactions = [],
      utxo = [((''c0'', 0), mk_out 50 ''alice''), ((''ca'', 0), mk_out 50 ''dave''),
              ((''cc'', 0), mk_out 50 ''frank'')],
      forks = []\<rparr>"

text \<open>
  A chain of the standalone module at difficulty 2, with the digests Python computes.
  The second block holds a coinbase and one transaction without inputs paying alice;
  its timestamp is one for which the hash at nonce 0 starts with \<open>00\<close>. \<open>ex_digest\<close>
  gives the digests of the genesis block, of the second block, and of the second block
  with its nonce changed to 5.
\<close>

definition ex_digest :: "block_data \<Rightarrow> string" where
  "ex_digest data =
     (if data = (0, [], replicate 64 (CHR ''0''), 1704067200, 0)
        then ''23a33f06ae8c1deb33bfc0e70e487069c21559bb42af363dad7299cbb24a4275''
      else if data =
          (1, [''e8acf68eecc67c1eadca7b91475a30df1b049b2e4f0afa2cd4758378ff8bda9b'',
               ''3a1f4a092af45a7c0f3c0e4596f647003654981c9ef85d068a7d0ff0a97b9cf0''],
           ''23a33f06ae8c1deb33bfc0e70e487069c21559bb42af363dad7299cbb24a4275'',
           1704067217, 0)
        then ''0013a9fc9e582f608372d7d47c617ba924d41f46d17f14f801006a0a5df3d63f''
      else if data =
          (1, [''e8acf68eecc67c1eadca7b91475a30df1b049b2e4f0afa2cd4758378ff8bda9b'',
               ''3a1f4a092af45a7c0f3c0e4596f647003654981c9ef85d068a7d0ff0a97b9cf0''],
           ''23a33f06ae8c1deb33bfc0e70e487069c21559bb42af363dad7299cbb24a4275'',
           1704067217, 5)
        then ''587226627dafda7214432c621d21429af4d87fe06b6e6a7cf3b52d0b9c005dfd''
      else [])"

definition ex_sf_cb :: Transaction where
  "ex_sf_cb = \<lparr>inputs = [], outputs = [mk_out 50 ''miner''], tx_timestamp = 1704067201,
      txid = ''e8acf68eecc67c1eadca7b91475a30df1b049b2e4f0afa2cd4758378ff8bda9b''\<rparr>"

definition ex_sf_tx :: Transaction where
  "ex_sf_tx = \<lparr>inputs = [], outputs = [mk_out 10 ''alice''], tx_timestamp = 1704067201,
      txid = ''3a1f4a092af45a7c0f3c0e4596f647003654981c9ef85d068a7d0ff0a97b9cf0''\<rparr>"

definition ex_sf_genesis :: Block_sf where
  "ex_sf_genesis = create_genesis_block ex_digest 1704067200"

definition ex_sf_b1 :: Block_sf where
  "ex_sf_b1 = Block_init_sf ex_digest 1 [ex_sf_cb, ex_sf_tx] (hash_sf ex_sf_genesis) 1704067217"

definition ex_sf_state :: Blockchain_sf where
  "ex_sf_state =
     \<lparr>chain_sf = [ex_sf_genesis, ex_sf_b1], pending_transactions_sf = [],
      utxos_sf = [(txid ex_sf_tx @ '':0'', mk_out 10 ''alice'')], difficulty_sf = 2\<rparr>"

definition ex_sf_genesis_mutated :: Block_sf where
  "ex_sf_genesis_mutated =
     ex_sf_genesis\<lparr>index_sf := 7, transactions_sf := [ex_sf_tx], previous_hash_sf := ''ffff'',
                   timestamp_sf := 0, nonce_sf := 99\<rparr>"

definition ex_sf_tampered :: Blockchain_sf where
  "ex_sf_tampered = ex_sf_state\<lparr>chain_sf := [ex_sf_genesis, ex_sf_b1\<lparr>nonce_sf := 5\<rparr>]\<rparr>"

lemmas ex_sf_defs = ex_digest_def ex_sf_cb_def ex_sf_tx_def ex_sf_genesis_def ex_sf_b1_def
  ex_sf_state_def ex_sf_genesis_mutated_def ex_sf_tampered_def mk_out_def
  create_genesis_block_def Block_init_sf_def calculate_hash_sf_def Let_def

lemmas ex_fork_defs =
  ex_a2_def ex_f2_def ex_f3_def ex_fork_state_def ex_f1_def ex_f1x_def ex_work_state_def
  ex_after_reorg_def

lemmas ex_defs =
  sha256_hexdigest_def mk_in_def mk_out_def mk_tx_def mk_block_def
  ex_c0_def ex_genesis_def ex_a1_def ex_utxo_def ex_init_def ex_state_def
  ex_t1_def ex_t2_def ex_c1_def ex_c2_def ex_b_side_def ex_b_two_coinbases_def ex_b_spend_def
  ex_b_orphan_def ex_t_missing_def ex_state_pending_def

lemmas eval_defs =
  add_block_def is_valid_block_def last_block_def validate_def
  calculate_merkle_root_def merkle_loop.simps validate_transaction_def is_coinbase_def
  apply_block_def apply_transaction_def add_utxo_def remove_utxo_def get_utxo_def
  handle_fork_def add_transaction_def get_balance_def Let_def numeral_2_eq_2

section \<open>Transaction validation\<close>

lemma validate_inputs_Some:
  "validate_inputs u ins seen acc = Some t \<longleftrightarrow>
     distinct (map (\<lambda>i. (in_txid i, output_index i)) ins) \<and>
     (\<forall>i \<in> set ins. (in_txid i, output_index i) \<notin> seen \<and>
        get_utxo u (in_txid i) (output_index i) \<noteq> None) \<and>
     t = acc + sum_list (map (\<lambda>i. out_value (the (get_utxo u (in_txid i) (output_index i)))) ins)"
proof (induction ins arbitrary: seen acc)
  case Nil
  show ?case by auto
next
  case (Cons a ins)
  show ?case
  proof (cases "get_utxo u (in_txid a) (output_index a)")
    case None
    then show ?thesis by (simp add: Let_def)
  next
    case (Some out)
    show ?thesis
      by (simp add: Let_def Some Cons.IH image_iff) (force simp: algebra_simps)
  qed
qed

text \<open>
  Claim C6. \<^verbatim>\<open>validate_transaction\<close> answers \<open>(True, 0)\<close> for every transaction
  without inputs, whatever the set holds. For a transaction with inputs it answers
  \<open>(False, 0)\<close> if two inputs name the same \<open>(txid, output_index)\<close>, if a named pair is
  absent from the set, or if the values of the named outputs sum to less than the
  transaction's outputs; otherwise it answers \<open>True\<close> with the sum of the input values.
\<close>

theorem validate_transaction_spec:
  "validate_transaction u tx =
     (let keys = map (\<lambda>i. (in_txid i, output_index i)) (inputs tx);
          total_input = sum_list (map (\<lambda>k. out_value (the (map_of u k))) keys);
          total_output = sum_list (map out_value (outputs tx))
      in if inputs tx = [] then (True, 0)
         else if \<not> distinct keys then (False, 0)
         else if \<exists>k \<in> set keys. map_of u k = None then (False, 0)
         else if total_input < total_output then (False, 0)
         else (True, total_input))"
proof (cases "validate_inputs u (inputs tx) {} 0")
  case None
  then have "\<not> (\<exists>t. validate_inputs u (inputs tx) {} 0 = Some t)" by simp
  then have "\<not> distinct (map (\<lambda>i. (in_txid i, output_index i)) (inputs tx)) \<or>
             (\<exists>i \<in> set (inputs tx). get_utxo u (in_txid i) (output_index i) = None)"
    unfolding validate_inputs_Some by auto
  then show ?thesis
    using None by (auto simp: validate_transaction_def is_coinbase_def Let_def get_utxo_def)
next
  case (Some t)
  then show ?thesis
    using Some [unfolded validate_inputs_Some]
    by (auto simp: validate_transaction_def is_coinbase_def Let_def get_utxo_def comp_def)
qed

theorem validate_transaction_spec_witness:
  "validate_transaction ex_utxo ex_t2 = (True, 50) \<and>
   validate_transaction ex_utxo (mk_tx ''t3'' [mk_in ''c0'' 0, mk_in ''c0'' 0] []) = (False, 0) \<and>
   validate_transaction ex_utxo (mk_tx ''t4'' [mk_in ''c0'' 1] []) = (False, 0) \<and>
   validate_transaction ex_utxo (mk_tx ''t5'' [mk_in ''c0'' 0] [mk_out 51 ''bob'']) = (False, 0) \<and>
   validate_transaction ex_utxo ex_c2 = (True, 0)"
  using validate_transaction_spec [of ex_utxo ex_t2]
    validate_transaction_spec [of ex_utxo "mk_tx ''t3'' [mk_in ''c0'' 0, mk_in ''c0'' 0] []"]
    validate_transaction_spec [of ex_utxo "mk_tx ''t4'' [mk_in ''c0'' 1] []"]
    validate_transaction_spec [of ex_utxo "mk_tx ''t5'' [mk_in ''c0'' 0] [mk_out 51 ''bob'']"]
    validate_transaction_spec [of ex_utxo ex_c2]
  by (simp add: ex_utxo_def ex_t2_def ex_c2_def mk_tx_def mk_in_def mk_out_def)

section \<open>The Merkle root\<close>

lemma pair_hashes_even:
  "even (length hs) \<Longrightarrow> \<exists>r. pair_hashes H hs = Inr r"
  by (induction H hs rule: pair_hashes.induct) auto

lemma merkle_loop_total:
  "even (length hs) \<or> length hs \<le> 1 \<Longrightarrow> \<exists>r. merkle_loop H hs = Inr r"
proof (induction H hs rule: merkle_loop.induct)
  case (1 H hashes)
  show ?case
  proof (cases "length hashes > 1")
    case False
    then show ?thesis by (simp add: merkle_loop.simps)
  next
    case True
    with "1.prems" have ev: "even (length hashes)" by auto
    obtain nh where nh: "pair_hashes H hashes = Inr nh"
      using pair_hashes_even [OF ev] by blast
    let ?n = "if length nh > 1 \<and> length nh mod 2 \<noteq> 0 then nh @ [last nh] else nh"
    have "even (length ?n) \<or> length ?n \<le> 1"
      by (auto simp: odd_iff_mod_2_eq_one)
    from "1.IH" [OF True nh this] obtain r where "merkle_loop H ?n = Inr r" by blast
    then show ?thesis
      using True nh by (subst merkle_loop.simps) simp
  qed
qed

text \<open>The Merkle root never raises: the list is padded to even length before each pass.\<close>

lemma calculate_merkle_root_total: "\<exists>r. calculate_merkle_root H txs = Inr r"
proof (cases "txs = []")
  case True
  then show ?thesis by (simp add: calculate_merkle_root_def)
next
  case False
  let ?h = "map txid txs"
  let ?p = "if length ?h mod 2 \<noteq> 0 then ?h @ [last ?h] else ?h"
  have "even (length ?p)" by (auto simp: odd_iff_mod_2_eq_one)
  then obtain r where "merkle_loop H ?p = Inr r"
    using merkle_loop_total by blast
  then show ?thesis
    using False by (simp add: calculate_merkle_root_def Let_def)
qed

text \<open>
  Claim C10. For a transaction list of odd length, the Merkle root is the root of the
  list with one more transaction at the end that carries the id of the last one (the last
  transaction itself, for instance): \<open>[t]\<close> and \<open>[t, t]\<close> have the same root. So a
  block validates with the one list exactly when it validates with the other.
\<close>

theorem merkle_root_padding:
  assumes "odd (length txs)" and "txid t = txid (last txs)"
  shows "calculate_merkle_root H (txs @ [t]) = calculate_merkle_root H txs \<and>
         validate H (b\<lparr>transactions := txs @ [t]\<rparr>) prev =
         validate H (b\<lparr>transactions := txs\<rparr>) prev"
proof -
  from assms(1) have ne: "txs \<noteq> []" by auto
  then have l: "last (map txid txs) = txid (last txs)" by (simp add: last_map)
  from assms(1) have m: "length txs mod 2 = 1" by (simp add: odd_iff_mod_2_eq_one)
  from m have m2: "Suc (length txs) mod 2 = 0" by presburger
  have "calculate_merkle_root H (txs @ [t]) = calculate_merkle_root H txs"
    using assms(2) ne l m m2 by (simp add: calculate_merkle_root_def Let_def)
  then show ?thesis by (simp add: validate_def split: sum.splits)
qed

theorem merkle_root_padding_witness:
  "odd (length [ex_c1]) \<and> txid ex_c1 = txid (last [ex_c1]) \<and>
   calculate_merkle_root sha256_hexdigest [ex_c1, ex_c1] =
   calculate_merkle_root sha256_hexdigest [ex_c1]"
  using merkle_root_padding [of "[ex_c1]" ex_c1 sha256_hexdigest]
  by simp

section \<open>Block acceptance\<close>

lemma validate_True_prev: "validate H b p = Inr True \<Longrightarrow> previous_hash b = p"
  by (auto simp: validate_def split: if_splits sum.splits)

lemma validate_total: "\<exists>r. validate H b p = Inr r"
  using calculate_merkle_root_total [of H "transactions b"]
  by (auto simp: validate_def)

lemma is_valid_block_total: "chain s \<noteq> [] \<Longrightarrow> \<exists>r. is_valid_block H s b = Inr r"
  using validate_total [of H b "hash (last (chain s))"]
  by (auto simp: is_valid_block_def last_block_def split: option.splits list.splits)

lemma is_valid_block_prev:
  "is_valid_block H s b = Inr True \<Longrightarrow> chain s \<noteq> [] \<and> previous_hash b = hash (last (chain s))"
  by (auto simp: is_valid_block_def last_block_def dest: validate_True_prev
      split: if_splits sum.splits)

text \<open>
  A block that \<^verbatim>\<open>is_valid_block\<close> accepts names the tip as its parent, so \<^verbatim>\<open>add_block\<close>
  has two outcomes only: rejection with the state as it was, or the append to the
  canonical chain.
\<close>

lemma add_block_result:
  "add_block H s b =
     (case is_valid_block H s b of
        Inl e \<Rightarrow> Inl e
      | Inr ok \<Rightarrow>
          if ok then Inr (True, s\<lparr>chain := chain s @ [b], utxo := apply_block (utxo s) b\<rparr>)
          else Inr (False, s))"
proof (cases "is_valid_block H s b")
  case (Inl e)
  then show ?thesis by (simp add: add_block_def)
next
  case (Inr ok)
  show ?thesis
  proof (cases ok)
    case False
    with Inr show ?thesis by (simp add: add_block_def)
  next
    case True
    with Inr is_valid_block_prev [of H s b] show ?thesis
      by (simp add: add_block_def last_block_def)
  qed
qed

lemma add_block_never_forks:
  "last_block s = Inr tip \<Longrightarrow> previous_hash b \<noteq> hash tip \<Longrightarrow>
   add_block H s b = Inr (False, s)"
  by (auto simp: add_block_def is_valid_block_def validate_def split: sum.splits)

lemma handle_fork_False: "handle_fork s b = Inr (False, s') \<Longrightarrow> s' = s"
  by (auto simp: handle_fork_def switch_to_fork_def Let_def
      split: sum.splits option.splits if_splits prod.splits)

lemma ex_state_reached: "add_block sha256_hexdigest ex_init ex_a1 = Inr (True, ex_state)"
  by (simp add: eval_defs ex_defs)

text \<open>
  Claim C1, evaluated. \<open>ex_b_side\<close> names the genesis block, an ancestor of the tip, as
  its parent, and is valid against that parent. \<^verbatim>\<open>_handle_fork\<close> would start the fork
  \<open>[ex_genesis, ex_b_side]\<close> and answer \<open>True\<close>; \<^verbatim>\<open>add_block\<close> never gets there,
  because \<^verbatim>\<open>is_valid_block\<close> has compared the parent with the tip's hash before, and it
  answers \<open>False\<close> with the state unchanged.
\<close>

theorem add_block_rejects_side_block:
  "validate sha256_hexdigest ex_b_side (hash ex_genesis) = Inr True \<and>
   handle_fork ex_state ex_b_side =
     Inr (True, ex_state\<lparr>forks := [[ex_genesis, ex_b_side]]\<rparr>) \<and>
   add_block sha256_hexdigest ex_state ex_b_side = Inr (False, ex_state)"
  by (simp add: eval_defs ex_defs)

text \<open>
  Claim C4, evaluated. \<open>ex_b_two_coinbases\<close> holds a well-formed coinbase at index 0 and
  a second coinbase, with two outputs of 1000, at index 1. The block is accepted and the
  live set credits 2000 to the second coinbase's recipient.
\<close>

theorem add_block_accepts_second_coinbase:
  "is_coinbase ex_c2 \<and> length (outputs ex_c2) = 2 \<and>
   transactions ex_b_two_coinbases = [ex_c1, ex_c2] \<and>
   is_valid_block sha256_hexdigest ex_state ex_b_two_coinbases = Inr True \<and>
   add_block sha256_hexdigest ex_state ex_b_two_coinbases =
     Inr (True, ex_state\<lparr>chain := [ex_genesis, ex_a1, ex_b_two_coinbases],
                          utxo := apply_block ex_utxo ex_b_two_coinbases\<rparr>) \<and>
   get_balance (apply_block ex_utxo ex_b_two_coinbases) ''mallory'' = 2000"
  by (simp add: eval_defs ex_defs)

text \<open>
  The part of the coinbase rule that the code does enforce: a coinbase at index 0 with
  another number of outputs than one, or with another value than 50, is never accepted.
\<close>

lemma first_coinbase_shape_checked:
  "transactions b = cb # rest \<Longrightarrow> is_coinbase cb \<Longrightarrow>
   length (outputs cb) \<noteq> 1 \<or> out_value (outputs cb ! 0) \<noteq> 50 \<Longrightarrow>
   is_valid_block H s b \<noteq> Inr True"
  by (auto simp: is_valid_block_def split: sum.splits option.splits if_splits)

text \<open>
  Claim C5 as stated fails: \<open>ex_t1\<close> and \<open>ex_t2\<close> both validate against the live set
  and both spend \<open>(c0, 0)\<close>, and both submissions succeed.
\<close>

theorem second_spend_accepted_counterexample:
  "fst (validate_transaction (utxo ex_state) ex_t1) \<and>
   fst (validate_transaction (utxo ex_state) ex_t2) \<and>
   map (\<lambda>i. (in_txid i, output_index i)) (inputs ex_t1) = [(''c0'', 0)] \<and>
   map (\<lambda>i. (in_txid i, output_index i)) (inputs ex_t2) = [(''c0'', 0)] \<and>
   add_transaction ex_state ex_t1 = (True, ex_state_pending) \<and>
   add_transaction ex_state_pending ex_t2 =
     (True, ex_state\<lparr>pending_transactions := [ex_t1, ex_t2]\<rparr>)"
  by (simp add: eval_defs ex_defs)

text \<open>
  Claim C5, amended. Two transactions that each validate against the current UTXO set
  are both accepted by \<^verbatim>\<open>add_transaction\<close>, one after the other, whether or not they
  name the same output: a submission is checked against the live set only, which it does
  not change, and both transactions are appended to the pending pool in order.
\<close>

theorem add_transaction_ignores_pending:
  assumes "fst (validate_transaction (utxo s) t1)"
    and "fst (validate_transaction (utxo s) t2)"
  shows "add_transaction s t1 =
           (True, s\<lparr>pending_transactions := pending_transactions s @ [t1]\<rparr>) \<and>
         add_transaction (s\<lparr>pending_transactions := pending_transactions s @ [t1]\<rparr>) t2 =
           (True, s\<lparr>pending_transactions := pending_transactions s @ [t1, t2]\<rparr>)"
  using assms by (auto simp: add_transaction_def Let_def split: prod.splits)

theorem add_transaction_ignores_pending_witness:
  "fst (validate_transaction (utxo ex_state) ex_t1) \<and>
   fst (validate_transaction (utxo ex_state) ex_t2) \<and>
   add_transaction (ex_state\<lparr>pending_transactions := pending_transactions ex_state @ [ex_t1]\<rparr>)
     ex_t2 =
     (True, ex_state\<lparr>pending_transactions := pending_transactions ex_state @ [ex_t1, ex_t2]\<rparr>)"
proof -
  have v1: "fst (validate_transaction (utxo ex_state) ex_t1)"
    by (simp add: eval_defs ex_defs)
  have v2: "fst (validate_transaction (utxo ex_state) ex_t2)"
    by (simp add: eval_defs ex_defs)
  from add_transaction_ignores_pending [OF v1 v2] v1 v2 show ?thesis by simp
qed

text \<open>
  Claim C7 as stated fails: \<open>ex_b_spend\<close> passes validation on top of the tip and
  contains the pending transaction \<open>ex_t1\<close>, which is not a coinbase; after the block
  has been accepted the pending pool still holds \<open>ex_t1\<close>.
\<close>

theorem pending_pool_kept_counterexample:
  "is_valid_block sha256_hexdigest ex_state_pending ex_b_spend = Inr True \<and>
   previous_hash ex_b_spend = hash (last (chain ex_state_pending)) \<and>
   pending_transactions ex_state_pending = [ex_t1] \<and>
   ex_t1 \<in> set (transactions ex_b_spend) \<and> \<not> is_coinbase ex_t1 \<and>
   add_block sha256_hexdigest ex_state_pending ex_b_spend =
     Inr (True, \<lparr>bc_difficulty = 2, chain = [ex_genesis, ex_a1, ex_b_spend],
                 pending_transactions = [ex_t1],
                 utxo = [((''c1'', 0), mk_out 50 ''miner''), ((''t1'', 0), mk_out 50 ''bob'')],
                 forks = []\<rparr>)"
  by (simp add: eval_defs ex_defs)

text \<open>
  Claim C7, amended. When a candidate block passes all validation and names the canonical
  tip as its parent, \<^verbatim>\<open>add_block\<close> answers \<open>True\<close>, appends the block to the canonical
  chain and applies its transactions to the live UTXO set; the pending pool and the
  tracked forks are left as they were.
\<close>

theorem add_block_extends_tip:
  assumes "is_valid_block H s b = Inr True"
    and "last_block s = Inr tip" and "previous_hash b = hash tip"
  shows "\<exists>s'. add_block H s b = Inr (True, s') \<and>
           chain s' = chain s @ [b] \<and>
           utxo s' = apply_block (utxo s) b \<and>
           pending_transactions s' = pending_transactions s \<and>
           forks s' = forks s \<and>
           bc_difficulty s' = bc_difficulty s"
  using assms(1) by (simp add: add_block_result)

theorem add_block_extends_tip_witness:
  "is_valid_block sha256_hexdigest ex_state_pending ex_b_spend = Inr True \<and>
   last_block ex_state_pending = Inr ex_a1 \<and>
   previous_hash ex_b_spend = hash ex_a1 \<and>
   (\<exists>s'. add_block sha256_hexdigest ex_state_pending ex_b_spend = Inr (True, s') \<and>
      chain s' = chain ex_state_pending @ [ex_b_spend] \<and>
      utxo s' = apply_block (utxo ex_state_pending) ex_b_spend \<and>
      pending_transactions s' = pending_transactions ex_state_pending \<and>
      forks s' = forks ex_state_pending \<and>
      bc_difficulty s' = bc_difficulty ex_state_pending)"
proof -
  have a: "is_valid_block sha256_hexdigest ex_state_pending ex_b_spend = Inr True"
    by (simp add: eval_defs ex_defs)
  have b: "last_block ex_state_pending = Inr ex_a1"
    by (simp add: last_block_def ex_state_pending_def ex_state_def)
  have c: "previous_hash ex_b_spend = hash ex_a1"
    by (simp add: ex_b_spend_def ex_a1_def mk_block_def)
  from add_block_extends_tip [OF a b c] a b c show ?thesis by blast
qed

text \<open>
  Claim C8. A rejection leaves the whole state (canonical chain, live UTXO set, forks,
  pending pool) as it was: if \<^verbatim>\<open>add_block\<close> answers \<open>False\<close> the state it returns is the
  one it was given, and it answers \<open>False\<close> whenever \<^verbatim>\<open>is_valid_block\<close> does, whose
  checks run on a copy of the live set; the same holds for the orphan branch of
  \<^verbatim>\<open>_handle_fork\<close> and for a rejected \<^verbatim>\<open>add_transaction\<close>. On a chain that is not empty
  \<^verbatim>\<open>add_block\<close> does not raise: it either rejects, or appends after validation succeeded.
\<close>

theorem rejection_leaves_state_unchanged:
  "(add_block H s b = Inr (False, s') \<longrightarrow> s' = s) \<and>
   (is_valid_block H s b = Inr False \<longrightarrow> add_block H s b = Inr (False, s)) \<and>
   (handle_fork s b = Inr (False, s') \<longrightarrow> s' = s) \<and>
   (add_transaction s tx = (False, s') \<longrightarrow> s' = s) \<and>
   (\<not> fst (validate_transaction (utxo s) tx) \<longrightarrow> add_transaction s tx = (False, s)) \<and>
   (chain s \<noteq> [] \<longrightarrow>
      add_block H s b = Inr (False, s) \<or>
      (is_valid_block H s b = Inr True \<and>
       add_block H s b =
         Inr (True, s\<lparr>chain := chain s @ [b], utxo := apply_block (utxo s) b\<rparr>)))"
proof (intro conjI impI)
  assume "add_block H s b = Inr (False, s')"
  then show "s' = s"
    by (auto simp: add_block_result split: sum.splits if_splits)
next
  assume "is_valid_block H s b = Inr False"
  then show "add_block H s b = Inr (False, s)" by (simp add: add_block_result)
next
  assume "handle_fork s b = Inr (False, s')"
  then show "s' = s" by (rule handle_fork_False)
next
  assume "add_transaction s tx = (False, s')"
  then show "s' = s"
    by (auto simp: add_transaction_def Let_def split: prod.splits if_splits)
next
  assume "\<not> fst (validate_transaction (utxo s) tx)"
  then show "add_transaction s tx = (False, s)"
    by (auto simp: add_transaction_def Let_def split: prod.splits)
next
  assume "chain s \<noteq> []"
  then obtain r where "is_valid_block H s b = Inr r"
    using is_valid_block_total by blast
  then show "add_block H s b = Inr (False, s) \<or>
      (is_valid_block H s b = Inr True \<and>
       add_block H s b =
         Inr (True, s\<lparr>chain := chain s @ [b], utxo := apply_block (utxo s) b\<rparr>))"
    by (cases r) (simp_all add: add_block_result)
qed

theorem rejection_leaves_state_unchanged_witness:
  "add_block sha256_hexdigest ex_state ex_b_orphan = Inr (False, ex_state) \<and>
   is_valid_block sha256_hexdigest ex_state ex_b_orphan = Inr False \<and>
   handle_fork ex_state ex_b_orphan = Inr (False, ex_state) \<and>
   add_transaction ex_state ex_t_missing = (False, ex_state) \<and>
   \<not> fst (validate_transaction (utxo ex_state) ex_t_missing) \<and>
   chain ex_state \<noteq> []"
  using rejection_leaves_state_unchanged
    [of sha256_hexdigest ex_state ex_b_orphan ex_state ex_t_missing]
  by (simp add: eval_defs ex_defs)

section \<open>Fork handling\<close>

lemma find_fork_Some:
  "find_fork b fs k = Inr (Some (i, f)) \<Longrightarrow>
     k \<le> i \<and> i - k < length fs \<and> fs ! (i - k) = f \<and> f \<noteq> [] \<and>
     previous_hash b = hash (last f)"
proof (induction fs arbitrary: k)
  case Nil
  then show ?case by simp
next
  case (Cons a fs)
  show ?case
  proof (cases "a \<noteq> [] \<and> previous_hash b \<noteq> hash (last a)")
    case True
    with Cons.prems have "find_fork b fs (Suc k) = Inr (Some (i, f))" by simp
    from Cons.IH [OF this] have ih: "Suc k \<le> i" "i - Suc k < length fs"
      "fs ! (i - Suc k) = f" "f \<noteq> []" "previous_hash b = hash (last f)" by simp_all
    from ih(1) have "i - k = Suc (i - Suc k)" by arith
    with ih show ?thesis by simp
  next
    case False
    with Cons.prems show ?thesis by (auto split: if_splits)
  qed
qed

lemma list_index_Inr: "list_index xs x = Inr k \<Longrightarrow> k < length xs \<and> xs ! k = x"
  by (induction xs arbitrary: k) (auto split: if_splits sum.splits)

lemma list_index_mem: "x \<in> set xs \<Longrightarrow> \<exists>k. list_index xs x = Inr k"
  by (induction xs) auto

text \<open>Extending a tracked fork: the switch is decided by the two lengths alone.\<close>

lemma handle_fork_extend:
  assumes "find_fork b (forks s) 0 = Inr (Some (i, old_fork))"
  shows "\<exists>s'. handle_fork s b = Inr (True, s') \<and>
           pending_transactions s' = pending_transactions s \<and>
           (if length (old_fork @ [b]) > length (chain s)
            then chain s' = old_fork @ [b] \<and>
                 forks s' = take i (forks s) @ drop (Suc i) (forks s)
            else chain s' = chain s \<and> utxo s' = utxo s \<and>
                 forks s' = (forks s)[i := old_fork @ [b]])"
proof -
  from find_fork_Some [OF assms] have i: "i < length (forks s)" by simp
  then show ?thesis
    using assms by (simp add: handle_fork_def switch_to_fork_def Let_def)
qed

lemma work_uniform:
  "\<forall>x \<in> set c. difficulty x = d \<Longrightarrow>
   get_chain_difficulty s (Some c) = int (length c) * 2 ^ d"
  by (induction c) (auto simp: get_chain_difficulty_def algebra_simps)

lemma handle_fork_preserves:
  assumes inv: "forks_not_longer s" and ne: "chain s \<noteq> []"
    and prev: "previous_hash b \<noteq> hash (last (chain s))"
    and res: "handle_fork s b = Inr (r, s')"
  shows "forks_not_longer s'"
proof (cases "find_fork b (forks s) 0")
  case (Inl e)
  with res show ?thesis by (simp add: handle_fork_def)
next
  case (Inr found)
  show ?thesis
  proof (cases found)
    case (Some p)
    obtain i old_fork where p: "p = (i, old_fork)" by (cases p)
    have ff: "find_fork b (forks s) 0 = Inr (Some (i, old_fork))"
      using Inr Some p by simp
    from find_fork_Some [OF ff] have i: "i < length (forks s)" and o: "forks s ! i = old_fork"
      by simp_all
    from handle_fork_extend [OF ff] res obtain
      c: "if length (old_fork @ [b]) > length (chain s)
            then chain s' = old_fork @ [b] \<and>
                 forks s' = take i (forks s) @ drop (Suc i) (forks s)
            else chain s' = chain s \<and> utxo s' = utxo s \<and>
                 forks s' = (forks s)[i := old_fork @ [b]]"
      by auto
    show ?thesis
    proof (cases "length (old_fork @ [b]) > length (chain s)")
      case True
      with c have c': "chain s' = old_fork @ [b]"
        "forks s' = take i (forks s) @ drop (Suc i) (forks s)" by simp_all
      have "set (forks s') \<subseteq> set (forks s)"
        unfolding c' using set_take_subset set_drop_subset by fastforce
      with inv True show ?thesis
        unfolding forks_not_longer_def c'(1) by fastforce
    next
      case False
      with c have c': "chain s' = chain s" "forks s' = (forks s)[i := old_fork @ [b]]"
        by simp_all
      have "set (forks s') \<subseteq> insert (old_fork @ [b]) (set (forks s))"
        unfolding c' by (rule set_update_subset_insert)
      with inv False show ?thesis
        unfolding forks_not_longer_def c'(1) by fastforce
    qed
  next
    case None
    let ?m = "filter (\<lambda>x. hash x = previous_hash b) (chain s)"
    show ?thesis
    proof (cases "?m = []")
      case True
      with res Inr None have "s' = s" by (simp add: handle_fork_def)
      with inv show ?thesis by simp
    next
      case False
      then have "hd ?m \<in> set ?m" by (rule hd_in_set)
      then have mem: "hd ?m \<in> set (chain s)" and h: "hash (hd ?m) = previous_hash b"
        unfolding set_filter by blast+
      from list_index_mem [OF mem] obtain k where k: "list_index (chain s) (hd ?m) = Inr k"
        by blast
      from list_index_Inr [OF k] have kl: "k < length (chain s)" and kn: "chain s ! k = hd ?m"
        by simp_all
      have "k \<noteq> length (chain s) - 1"
      proof
        assume "k = length (chain s) - 1"
        with kn ne have "last (chain s) = hd ?m" by (simp add: last_conv_nth)
        with h prev show False by simp
      qed
      with kl have k2: "k + 2 \<le> length (chain s)" by simp
      from res Inr None False k
      have s': "s' = s\<lparr>forks := forks s @ [take (k + 1) (chain s) @ [b]]\<rparr>"
        by (simp add: handle_fork_def Let_def)
      show ?thesis
        using inv k2 unfolding s' forks_not_longer_def by auto
    qed
  qed
qed

lemma add_block_preserves:
  assumes "forks_not_longer s" and "add_block H s b = Inr (r, s')"
  shows "forks_not_longer s'"
proof -
  from assms(2) have "s' = s \<or> (chain s' = chain s @ [b] \<and> forks s' = forks s)"
    by (auto simp: add_block_result split: sum.splits if_splits)
  then show ?thesis
  proof
    assume "s' = s"
    with assms(1) show ?thesis by simp
  next
    assume a: "chain s' = chain s @ [b] \<and> forks s' = forks s"
    show ?thesis
      unfolding forks_not_longer_def
    proof
      fix f assume "f \<in> set (forks s')"
      with a assms(1) have "length f \<le> length (chain s)"
        by (simp add: forks_not_longer_def)
      with a show "length f \<le> length (chain s')" by simp
    qed
  qed
qed

text \<open>
  Claim C2 as stated fails. In \<open>ex_work_state\<close> the canonical chain has cumulative work
  12 and the tracked fork 8. The fork is extended by a block of difficulty 3: its work
  becomes 16, strictly more than the canonical chain's, and no reorg takes place, because
  both sequences have three blocks.
\<close>

theorem heavier_fork_not_adopted_counterexample:
  "get_chain_difficulty ex_work_state None = 12 \<and>
   get_chain_difficulty ex_work_state (Some [ex_genesis, ex_f1]) = 8 \<and>
   forks ex_work_state = [[ex_genesis, ex_f1]] \<and>
   handle_fork ex_work_state ex_f1x =
     Inr (True, ex_work_state\<lparr>forks := [[ex_genesis, ex_f1, ex_f1x]]\<rparr>) \<and>
   get_chain_difficulty ex_work_state (Some [ex_genesis, ex_f1, ex_f1x]) = 16"
  by (simp add: eval_defs ex_defs ex_fork_defs get_chain_difficulty_def)

text \<open>
  Claim C2, amended: fork handling compares numbers of blocks, not cumulative work.
  \<^item> When \<^verbatim>\<open>_handle_fork\<close> extends a tracked fork, it switches the canonical chain to
    that fork (and drops the fork entry) if and only if the extended fork has strictly
    more blocks than the canonical chain; otherwise the canonical chain and the live set
    stay and the fork entry is replaced by the extended fork.
  \<^item> When all blocks of the two sequences have the same difficulty, strictly more blocks
    is the same as strictly greater cumulative work.
  \<^item> \<^verbatim>\<open>add_block\<close>, and \<^verbatim>\<open>_handle_fork\<close> for a block that does not name the tip as its
    parent, preserve that no tracked fork is longer than the canonical chain; with one
    difficulty for all blocks, the canonical chain then holds the greatest cumulative
    work among the tracked sequences.
\<close>

theorem fork_handling_compares_length:
  "(find_fork b (forks s) 0 = Inr (Some (i, old_fork)) \<longrightarrow>
      (\<exists>s'. handle_fork s b = Inr (True, s') \<and>
         (if length (old_fork @ [b]) > length (chain s)
          then chain s' = old_fork @ [b] \<and>
               forks s' = take i (forks s) @ drop (Suc i) (forks s)
          else chain s' = chain s \<and> utxo s' = utxo s \<and>
               forks s' = (forks s)[i := old_fork @ [b]]))) \<and>
   ((\<forall>x \<in> set (chain s) \<union> set fc. difficulty x = d) \<longrightarrow>
      (get_chain_difficulty s None < get_chain_difficulty s (Some fc)) =
      (length (chain s) < length fc)) \<and>
   (forks_not_longer s \<and> chain s \<noteq> [] \<and> previous_hash b \<noteq> hash (last (chain s)) \<and>
    handle_fork s b = Inr (r, s2) \<longrightarrow> forks_not_longer s2) \<and>
   (forks_not_longer s \<and> add_block H s b = Inr (r3, s3) \<longrightarrow> forks_not_longer s3) \<and>
   (forks_not_longer s \<and>
    (\<forall>x \<in> set (chain s) \<union> \<Union> (set ` set (forks s)). difficulty x = d) \<longrightarrow>
      (\<forall>f \<in> set (forks s). get_chain_difficulty s (Some f) \<le> get_chain_difficulty s None))"
proof (intro conjI impI)
  assume "find_fork b (forks s) 0 = Inr (Some (i, old_fork))"
  from handle_fork_extend [OF this]
  show "\<exists>s'. handle_fork s b = Inr (True, s') \<and>
         (if length (old_fork @ [b]) > length (chain s)
          then chain s' = old_fork @ [b] \<and>
               forks s' = take i (forks s) @ drop (Suc i) (forks s)
          else chain s' = chain s \<and> utxo s' = utxo s \<and>
               forks s' = (forks s)[i := old_fork @ [b]])"
    by blast
next
  assume u: "\<forall>x \<in> set (chain s) \<union> set fc. difficulty x = d"
  have n: "get_chain_difficulty s None = get_chain_difficulty s (Some (chain s))"
    by (simp add: get_chain_difficulty_def)
  from u have "get_chain_difficulty s (Some (chain s)) = int (length (chain s)) * 2 ^ d"
    and "get_chain_difficulty s (Some fc) = int (length fc) * 2 ^ d"
    by (simp_all add: work_uniform)
  with n show "(get_chain_difficulty s None < get_chain_difficulty s (Some fc)) =
      (length (chain s) < length fc)"
    by simp
next
  assume "forks_not_longer s \<and> chain s \<noteq> [] \<and> previous_hash b \<noteq> hash (last (chain s)) \<and>
    handle_fork s b = Inr (r, s2)"
  then show "forks_not_longer s2" using handle_fork_preserves by blast
next
  assume "forks_not_longer s \<and> add_block H s b = Inr (r3, s3)"
  then show "forks_not_longer s3" using add_block_preserves by blast
next
  assume a: "forks_not_longer s \<and>
    (\<forall>x \<in> set (chain s) \<union> \<Union> (set ` set (forks s)). difficulty x = d)"
  have n: "get_chain_difficulty s None = get_chain_difficulty s (Some (chain s))"
    by (simp add: get_chain_difficulty_def)
  show "\<forall>f \<in> set (forks s). get_chain_difficulty s (Some f) \<le> get_chain_difficulty s None"
  proof
    fix f assume f: "f \<in> set (forks s)"
    with a have l: "length f \<le> length (chain s)" by (simp add: forks_not_longer_def)
    from a f have "\<forall>x \<in> set f. difficulty x = d" by auto
    then have wf: "get_chain_difficulty s (Some f) = int (length f) * 2 ^ d"
      by (rule work_uniform)
    from a have "\<forall>x \<in> set (chain s). difficulty x = d" by auto
    then have wc: "get_chain_difficulty s (Some (chain s)) = int (length (chain s)) * 2 ^ d"
      by (rule work_uniform)
    from l show "get_chain_difficulty s (Some f) \<le> get_chain_difficulty s None"
      unfolding n wf wc by (simp add: mult_right_mono)
  qed
qed

theorem fork_handling_compares_length_witness:
  "find_fork ex_f3 (forks ex_fork_state) 0 = Inr (Some (0, [ex_genesis, ex_a1, ex_f2])) \<and>
   map difficulty (chain ex_fork_state @ [ex_genesis, ex_a1, ex_f2, ex_f3]) =
     [2, 2, 2, 2, 2, 2, 2] \<and>
   map length (forks ex_fork_state) = [3] \<and> length (chain ex_fork_state) = 3 \<and>
   previous_hash ex_f3 \<noteq> hash (last (chain ex_fork_state)) \<and>
   handle_fork ex_fork_state ex_f3 = Inr (True, ex_after_reorg) \<and>
   chain ex_after_reorg = [ex_genesis, ex_a1, ex_f2, ex_f3] \<and>
   forks ex_after_reorg = [] \<and>
   add_block sha256_hexdigest ex_fork_state ex_f3 = Inr (False, ex_fork_state) \<and>
   get_chain_difficulty ex_fork_state None
     < get_chain_difficulty ex_fork_state (Some [ex_genesis, ex_a1, ex_f2, ex_f3])"
  using fork_handling_compares_length
    [of ex_f3 ex_fork_state 0 "[ex_genesis, ex_a1, ex_f2]"
        "[ex_genesis, ex_a1, ex_f2, ex_f3]" 2 True ex_after_reorg
        sha256_hexdigest False ex_fork_state]
  by (simp add: eval_defs ex_defs ex_fork_defs switch_to_fork_def slice_to_def slice_from_def
      forks_not_longer_def get_chain_difficulty_def)

text \<open>
  What \<^verbatim>\<open>_switch_to_fork\<close> replays when the fork is one block longer than the canonical
  chain, the only case in which \<^verbatim>\<open>_handle_fork\<close> calls it while no fork is longer than
  the chain: all of the old canonical chain, then the last block of the fork.
\<close>

lemma switch_to_fork_replays:
  assumes "i < length (forks s)" and "length fc = Suc (length (chain s))"
  shows "switch_to_fork s fc i =
     Inr (s\<lparr>utxo := fold (\<lambda>block acc. apply_block acc block) (chain s @ [last fc]) [],
            chain := fc,
            forks := take i (forks s) @ drop (Suc i) (forks s)\<rparr>)"
proof -
  from assms(2) obtain ys y where fc: "fc = ys @ [y]"
    by (cases fc rule: rev_cases) auto
  with assms(2) have "length ys = length (chain s)" by simp
  then have "drop (length (chain s)) fc = [last fc]" by (simp add: fc)
  with assms show ?thesis
    by (simp add: switch_to_fork_def slice_to_def slice_from_def Let_def)
qed

text \<open>
  Claim C3, evaluated. The canonical chain has three blocks (work 12); the fork shares
  the first two and reaches four blocks (work 16) with \<open>ex_f3\<close>. \<^verbatim>\<open>_handle_fork\<close>
  switches the canonical chain to the four blocks of the fork, but the live set it builds
  replays \<open>ex_genesis\<close>, \<open>ex_a1\<close>, \<open>ex_a2\<close>, \<open>ex_f3\<close>: dave, paid only in the
  discarded block \<open>ex_a2\<close>, keeps his 50, and erin, paid in the fork's block
  \<open>ex_f2\<close>, has nothing. Replaying the fork's own four blocks from the empty set gives
  dave 0 and erin 50.
\<close>

theorem reorg_keeps_discarded_block:
  "chain ex_fork_state = [ex_genesis, ex_a1, ex_a2] \<and>
   forks ex_fork_state = [[ex_genesis, ex_a1, ex_f2]] \<and>
   get_chain_difficulty ex_fork_state None = 12 \<and>
   get_chain_difficulty ex_fork_state (Some [ex_genesis, ex_a1, ex_f2, ex_f3]) = 16 \<and>
   handle_fork ex_fork_state ex_f3 = Inr (True, ex_after_reorg) \<and>
   chain ex_after_reorg = [ex_genesis, ex_a1, ex_f2, ex_f3] \<and>
   get_balance (utxo ex_after_reorg) ''dave'' = 50 \<and>
   get_balance (utxo ex_after_reorg) ''erin'' = 0 \<and>
   get_balance
     (fold (\<lambda>block acc. apply_block acc block) [ex_genesis, ex_a1, ex_f2, ex_f3] [])
     ''dave'' = 0 \<and>
   get_balance
     (fold (\<lambda>block acc. apply_block acc block) [ex_genesis, ex_a1, ex_f2, ex_f3] [])
     ''erin'' = 50"
  by (simp add: eval_defs ex_defs ex_fork_defs switch_to_fork_def slice_to_def slice_from_def
      get_chain_difficulty_def)

section \<open>Chain validation in the standalone module\<close>

lemma mine_sf_result:
  assumes "mine_sf dg d b = Some b'"
  shows "take d (hash_sf b') = replicate d (CHR ''0'') \<and>
     previous_hash_sf b' = previous_hash_sf b \<and>
     (hash_sf b = calculate_hash_sf dg b \<longrightarrow> hash_sf b' = calculate_hash_sf dg b')"
proof (rule mine_sf.raw_induct
    [where P = "\<lambda>dg d b b'. take d (hash_sf b') = replicate d (CHR ''0'') \<and>
       previous_hash_sf b' = previous_hash_sf b \<and>
       (hash_sf b = calculate_hash_sf dg b \<longrightarrow> hash_sf b' = calculate_hash_sf dg b')",
     OF _ assms])
  fix f :: "(block_data \<Rightarrow> string) \<Rightarrow> nat \<Rightarrow> Block_sf \<Rightarrow> Block_sf option"
    and dg d b b'
  assume IH: "\<And>dg d b b'. f dg d b = Some b' \<Longrightarrow>
      take d (hash_sf b') = replicate d (CHR ''0'') \<and>
      previous_hash_sf b' = previous_hash_sf b \<and>
      (hash_sf b = calculate_hash_sf dg b \<longrightarrow> hash_sf b' = calculate_hash_sf dg b')"
    and step: "(if take d (hash_sf b) \<noteq> replicate d (CHR ''0'')
      then (let b1 = b\<lparr>nonce_sf := nonce_sf b + 1\<rparr>
            in f dg d (b1\<lparr>hash_sf := calculate_hash_sf dg b1\<rparr>))
      else Some b) = Some b'"
  show "take d (hash_sf b') = replicate d (CHR ''0'') \<and>
      previous_hash_sf b' = previous_hash_sf b \<and>
      (hash_sf b = calculate_hash_sf dg b \<longrightarrow> hash_sf b' = calculate_hash_sf dg b')"
  proof (cases "take d (hash_sf b) \<noteq> replicate d (CHR ''0'')")
    case True
    let ?b1 = "b\<lparr>nonce_sf := nonce_sf b + 1\<rparr>"
    let ?b2 = "?b1\<lparr>hash_sf := calculate_hash_sf dg ?b1\<rparr>"
    from True step have "f dg d ?b2 = Some b'" by (simp add: Let_def)
    note r = IH [OF this]
    have h2: "hash_sf ?b2 = calculate_hash_sf dg ?b2"
      by (simp add: calculate_hash_sf_def)
    have p2: "previous_hash_sf ?b2 = previous_hash_sf b" by simp
    from r h2 have "hash_sf b' = calculate_hash_sf dg b'" by blast
    moreover from r p2 have "previous_hash_sf b' = previous_hash_sf b" by metis
    moreover from r have "take d (hash_sf b') = replicate d (CHR ''0'')" by blast
    ultimately show ?thesis by blast
  next
    case False
    with step have "b' = b" by simp
    with False show ?thesis by blast
  qed
qed

lemma chain_valid_from_iff:
  "chain_valid_from dg d p rest \<longleftrightarrow>
     (\<forall>i < length rest.
        hash_sf (rest ! i) = calculate_hash_sf dg (rest ! i) \<and>
        previous_hash_sf (rest ! i) = hash_sf ((p # rest) ! i) \<and>
        take d (hash_sf (rest ! i)) = replicate d (CHR ''0''))"
proof (induction rest arbitrary: p)
  case Nil
  show ?case by simp
next
  case (Cons a rest)
  show ?case
    unfolding chain_valid_from.simps Cons.IH
    by (auto simp: less_Suc_eq_0_disj)
qed

lemma chain_valid_from_snoc:
  "chain_valid_from dg d p (rest @ [b]) \<longleftrightarrow>
     chain_valid_from dg d p rest \<and>
     hash_sf b = calculate_hash_sf dg b \<and>
     previous_hash_sf b = hash_sf (last (p # rest)) \<and>
     take d (hash_sf b) = replicate d (CHR ''0'')"
  by (induction rest arbitrary: p) auto

lemma mined_chain_valid:
  "mined_chain dg d c \<Longrightarrow> is_chain_valid dg (s\<lparr>chain_sf := c, difficulty_sf := d\<rparr>)"
proof (induction rule: mined_chain.induct)
  case (genesis ts)
  show ?case by (simp add: is_chain_valid_def)
next
  case (mined c txs ts new_block)
  let ?b0 = "Block_init_sf dg (int (length c)) txs (hash_sf (last c)) ts"
  have h0: "hash_sf ?b0 = calculate_hash_sf dg ?b0"
    by (simp add: Block_init_sf_def Let_def calculate_hash_sf_def)
  have p0: "previous_hash_sf ?b0 = hash_sf (last c)"
    by (simp add: Block_init_sf_def Let_def)
  note r = mine_sf_result [OF mined.hyps(3)]
  from r have nb1: "take d (hash_sf new_block) = replicate d (CHR ''0'')" by blast
  from r p0 have nb2: "previous_hash_sf new_block = hash_sf (last c)" by metis
  from r h0 have nb3: "hash_sf new_block = calculate_hash_sf dg new_block" by blast
  note nb = nb1 nb2 nb3
  from mined.hyps(2) obtain g rest where c: "c = g # rest" by (cases c) auto
  with mined.IH nb show ?case
    by (simp add: is_chain_valid_def chain_valid_from_snoc)
qed

lemma ex_mined: "mined_chain ex_digest 2 [ex_sf_genesis, ex_sf_b1]"
proof -
  have g: "mined_chain ex_digest 2 [ex_sf_genesis]"
    unfolding ex_sf_genesis_def by (rule mined_chain.genesis)
  have m: "mine_sf ex_digest 2
      (Block_init_sf ex_digest (int (length [ex_sf_genesis])) [ex_sf_cb, ex_sf_tx]
         (hash_sf (last [ex_sf_genesis])) 1704067217) = Some ex_sf_b1"
    by (subst mine_sf.simps) (simp add: ex_sf_defs numeral_2_eq_2)
  from mined_chain.mined [OF g _ m] show ?thesis by simp
qed

text \<open>
  Claim C9 as stated fails. The chain of \<open>ex_sf_state\<close> is one the module produces
  and is valid. With index, transactions, previous hash, timestamp and nonce of its
  genesis block all changed, \<^verbatim>\<open>is_chain_valid\<close> still answers \<open>True\<close>.
\<close>

theorem genesis_mutation_undetected_counterexample:
  "mined_chain ex_digest 2 (chain_sf ex_sf_state) \<and>
   is_chain_valid ex_digest ex_sf_state \<and>
   ex_sf_genesis_mutated \<noteq> ex_sf_genesis \<and>
   is_chain_valid ex_digest (ex_sf_state\<lparr>chain_sf := [ex_sf_genesis_mutated, ex_sf_b1]\<rparr>)"
proof -
  have "chain_sf ex_sf_state = [ex_sf_genesis, ex_sf_b1]" by (simp add: ex_sf_state_def)
  with ex_mined have "mined_chain ex_digest 2 (chain_sf ex_sf_state)" by simp
  moreover have "is_chain_valid ex_digest ex_sf_state \<and>
     ex_sf_genesis_mutated \<noteq> ex_sf_genesis \<and>
     is_chain_valid ex_digest (ex_sf_state\<lparr>chain_sf := [ex_sf_genesis_mutated, ex_sf_b1]\<rparr>)"
    by (simp add: is_chain_valid_def ex_sf_defs numeral_2_eq_2)
  ultimately show ?thesis by blast
qed

text \<open>
  Claim C9, amended. \<^verbatim>\<open>is_chain_valid\<close> answers \<open>True\<close> exactly when every block but
  the genesis block has a stored hash equal to the hash recomputed from its fields, names
  the stored hash of the block before it as its previous hash, and has a stored hash
  starting with as many zeros as the chain's difficulty. Every chain made by the
  constructor and by mining passes. A block other than the genesis block whose stored hash
  differs from the recomputed one makes the answer \<open>False\<close>. The genesis block is read
  for its stored hash only: replacing it by any block with the same stored hash leaves
  the answer as it was.
\<close>

theorem is_chain_valid_spec:
  "(is_chain_valid dg s \<longleftrightarrow>
      (\<forall>i. 0 < i \<and> i < length (chain_sf s) \<longrightarrow>
         hash_sf (chain_sf s ! i) = calculate_hash_sf dg (chain_sf s ! i) \<and>
         previous_hash_sf (chain_sf s ! i) = hash_sf (chain_sf s ! (i - 1)) \<and>
         take (difficulty_sf s) (hash_sf (chain_sf s ! i)) =
           replicate (difficulty_sf s) (CHR ''0''))) \<and>
   (mined_chain dg d c \<longrightarrow> is_chain_valid dg (s\<lparr>chain_sf := c, difficulty_sf := d\<rparr>)) \<and>
   (0 < k \<and> k < length (chain_sf s) \<and>
    hash_sf (chain_sf s ! k) \<noteq> calculate_hash_sf dg (chain_sf s ! k) \<longrightarrow>
      \<not> is_chain_valid dg s) \<and>
   (hash_sf g' = hash_sf g \<longrightarrow>
      is_chain_valid dg (s\<lparr>chain_sf := g' # rest\<rparr>) =
      is_chain_valid dg (s\<lparr>chain_sf := g # rest\<rparr>))"
proof -
  have iff: "is_chain_valid dg s \<longleftrightarrow>
      (\<forall>i. 0 < i \<and> i < length (chain_sf s) \<longrightarrow>
         hash_sf (chain_sf s ! i) = calculate_hash_sf dg (chain_sf s ! i) \<and>
         previous_hash_sf (chain_sf s ! i) = hash_sf (chain_sf s ! (i - 1)) \<and>
         take (difficulty_sf s) (hash_sf (chain_sf s ! i)) =
           replicate (difficulty_sf s) (CHR ''0''))" for s
  proof (cases "chain_sf s")
    case Nil
    then show ?thesis by (simp add: is_chain_valid_def)
  next
    case (Cons g rest)
    have "(\<forall>i. 0 < i \<and> i < Suc (length rest) \<longrightarrow> Q i) \<longleftrightarrow> (\<forall>i < length rest. Q (Suc i))"
      for Q
      by (metis Suc_less_eq Suc_pred less_Suc_eq_0_disj zero_less_Suc)
    then show ?thesis
      by (simp add: is_chain_valid_def Cons chain_valid_from_iff)
  qed
  have gen: "is_chain_valid dg (s\<lparr>chain_sf := g' # rest\<rparr>) =
      is_chain_valid dg (s\<lparr>chain_sf := g # rest\<rparr>)" if "hash_sf g' = hash_sf g"
    using that by (cases rest) (simp_all add: is_chain_valid_def)
  show ?thesis
    using iff [of s] mined_chain_valid [of dg d c s] gen by blast
qed

theorem is_chain_valid_spec_witness:
  "mined_chain ex_digest 2 [ex_sf_genesis, ex_sf_b1] \<and>
   is_chain_valid ex_digest
     (ex_sf_tampered\<lparr>chain_sf := [ex_sf_genesis, ex_sf_b1], difficulty_sf := 2\<rparr>) \<and>
   (0::nat) < 1 \<and> 1 < length (chain_sf ex_sf_tampered) \<and>
   hash_sf (chain_sf ex_sf_tampered ! 1)
     \<noteq> calculate_hash_sf ex_digest (chain_sf ex_sf_tampered ! 1) \<and>
   \<not> is_chain_valid ex_digest ex_sf_tampered \<and>
   hash_sf ex_sf_genesis_mutated = hash_sf ex_sf_genesis \<and>
   is_chain_valid ex_digest (ex_sf_tampered\<lparr>chain_sf := ex_sf_genesis_mutated # [ex_sf_b1]\<rparr>) =
   is_chain_valid ex_digest (ex_sf_tampered\<lparr>chain_sf := ex_sf_genesis # [ex_sf_b1]\<rparr>)"
proof -
  note t = is_chain_valid_spec
    [of ex_digest ex_sf_tampered 2 "[ex_sf_genesis, ex_sf_b1]" 1
        ex_sf_genesis_mutated ex_sf_genesis "[ex_sf_b1]"]
  have k: "(0::nat) < 1 \<and> 1 < length (chain_sf ex_sf_tampered) \<and>
     hash_sf (chain_sf ex_sf_tampered ! 1)
       \<noteq> calculate_hash_sf ex_digest (chain_sf ex_sf_tampered ! 1)"
    by (simp add: ex_sf_defs)
  have h: "hash_sf ex_sf_genesis_mutated = hash_sf ex_sf_genesis"
    by (simp add: ex_sf_defs)
  from t ex_mined k h show ?thesis by blast
qed

end
